theory Spec2Isabelle
  imports Main
begin

section \<open>Session and access control: the data model\<close>

text \<open>
  The session subsystem is the TypeScript of the ``Authentication and Security'' document:
  \<^verbatim>\<open>sessionStore\<close>, \<^verbatim>\<open>RoleManager\<close>, \<^verbatim>\<open>SessionSecurity\<close>, \<^verbatim>\<open>withRoles\<close> and
  \<^verbatim>\<open>cleanupSessions\<close>. Dates are their millisecond time stamps (\<open>int\<close>), and the
  comparison of two dates is the comparison of the time stamps. Every function that reads
  the clock takes the time \<open>now\<close> as an argument.

  \<^verbatim>\<open>
  interface UserSession {
    id: string; userId: string; token: string; role: UserRole; permissions: string[];
    createdAt: Date; expiresAt: Date;
    metadata: { ip: string; userAgent: string; lastActive: Date; };
  }
  \<close>
  The field \<^verbatim>\<open>id\<close> is \<open>sid\<close> here (\<open>id\<close> is the identity function of HOL).
  \<^verbatim>\<open>SessionSecurity.validateSession\<close> reads \<^verbatim>\<open>session.metadata.deviceId\<close>, which the
  interface does not declare and \<^verbatim>\<open>sessionStore.create\<close> never sets: the field is
  optional, \<open>None\<close> where the source reads \<^verbatim>\<open>undefined\<close>.
\<close>

type_synonym UserRole = string

record Metadata =
  ip :: string
  userAgent :: string
  lastActive :: int
  deviceId :: "string option"

record UserSession =
  sid :: string
  userId :: string
  token :: string
  role :: UserRole
  permissions :: "string list"
  createdAt :: int
  expiresAt :: int
  metadata :: Metadata

text \<open>
  The source declares no \<^verbatim>\<open>Role\<close> type; it reads \<^verbatim>\<open>role.id\<close> and
  \<^verbatim>\<open>role.permissions\<close>, and the data model names \<^verbatim>\<open>id\<close>, \<^verbatim>\<open>name\<close> and
  \<^verbatim>\<open>permissions\<close>.
\<close>

record Role =
  role_id :: string
  role_name :: string
  role_permissions :: "string list"

text \<open>
  The two objects the source hands to \<^verbatim>\<open>auditLogger.log\<close>, told apart by their
  \<^verbatim>\<open>type\<close> field: \<^verbatim>\<open>{type: 'access', userId, role, resource, allowed}\<close> and
  \<^verbatim>\<open>{type: 'session_expired', userId, sessionId}\<close>.
\<close>

datatype AuditEntry =
  Access string UserRole string bool
  | SessionExpired string string

subsection \<open>The collaborators that can fail\<close>

text \<open>
  The database driver and the audit sink are awaited: each call either answers or rejects,
  and a rejection travels up through every \<^verbatim>\<open>await\<close> that no \<^verbatim>\<open>try\<close> encloses.
  A run is given the set of external calls that reject in it; a function returns its
  result or the error, together with the state it has reached (what was written before
  the rejection stays written).
\<close>

datatype call =
  FindOne string
  | InsertOne string
  | DeleteOne string
  | FindExpired
  | FindRoles
  | Log AuditEntry

datatype error = RepositoryError | AuditSinkError

record sessionStore =
  cache :: "string \<rightharpoonup> UserSession"
  collection :: "UserSession list"

text \<open>\<^verbatim>\<open>collection.findOne({ id: sessionId })\<close>: the first stored document with that id.\<close>

definition findOne :: "UserSession list \<Rightarrow> string \<Rightarrow> UserSession option" where
  "findOne docs sessionId = find (\<lambda>s. sid s = sessionId) docs"

section \<open>The session store\<close>

text \<open>
  What \<^verbatim>\<open>create\<close> reads from its surroundings: the generated identifier and token, the
  clock, and the \<^verbatim>\<open>request\<close> in scope.
\<close>

record Request =
  req_ip :: string
  req_userAgent :: string
  req_url :: string
  req_session :: "UserSession option"

record env =
  generateUUID :: string
  generateToken :: string
  request :: Request

text \<open>
  \<^verbatim>\<open>
  async create(userId, role, permissions) {
    const session = { id: generateUUID(), userId, token: generateToken(), role, permissions,
      createdAt: new Date(), expiresAt: new Date(Date.now() + 24 * 60 * 60 * 1000),
      metadata: { ip: request.ip, userAgent: request.headers['user-agent'],
                  lastActive: new Date() } };
    this.cache.set(session.id, session);
    await this.collection.insertOne(session);
    return session;
  }
  \<close>
\<close>

definition new_session :: "env \<Rightarrow> int \<Rightarrow> string \<Rightarrow> UserRole \<Rightarrow> string list \<Rightarrow> UserSession" where
  "new_session e now uid r perms =
     \<lparr> sid = generateUUID e, userId = uid, token = generateToken e, role = r,
       permissions = perms, createdAt = now, expiresAt = now + 24 * 60 * 60 * 1000,
       metadata = \<lparr> ip = req_ip (request e), userAgent = req_userAgent (request e),
                    lastActive = now, deviceId = None \<rparr> \<rparr>"

definition create ::
  "call set \<Rightarrow> env \<Rightarrow> int \<Rightarrow> string \<Rightarrow> UserRole \<Rightarrow> string list \<Rightarrow> sessionStore
     \<Rightarrow> (error + UserSession) \<times> sessionStore" where
  "create F e now uid r perms st =
     (let session = new_session e now uid r perms;
          st1 = st\<lparr>cache := (cache st)(sid session \<mapsto> session)\<rparr>
      in if InsertOne (sid session) \<in> F then (Inl RepositoryError, st1)
         else (Inr session, st1\<lparr>collection := collection st1 @ [session]\<rparr>))"

text \<open>
  Modelled from the spec: \<^verbatim>\<open>sessionStore.destroy\<close> is called by \<^verbatim>\<open>validate\<close>, by the
  middleware and by the cleanup job, and its body is not in the source. The spec has
  ``idempotent removal from cache and repository; destroying a nonexistent session is a
  no-op, not an error'', and has every repository call able to end in a
  \<^verbatim>\<open>RepositoryError\<close> that is propagated to the caller. The spec does not say what a
  removal that failed leaves behind: here it leaves the store as it was.
\<close>

definition destroy :: "call set \<Rightarrow> string \<Rightarrow> sessionStore \<Rightarrow> (error + unit) \<times> sessionStore" where
  "destroy F sessionId st =
     (if DeleteOne sessionId \<in> F then (Inl RepositoryError, st)
      else (Inr (),
            st\<lparr>cache := (cache st)(sessionId := None),
               collection := filter (\<lambda>s. sid s \<noteq> sessionId) (collection st)\<rparr>))"

text \<open>
  \<^verbatim>\<open>
  async validate(sessionId) {
    let session = this.cache.get(sessionId);
    if (!session) {
      session = await this.collection.findOne({ id: sessionId });
      if (session) this.cache.set(sessionId, session);
    }
    if (!session || session.expiresAt < new Date()) {
      await this.destroy(sessionId);
      return null;
    }
    return session;
  }
  \<close>
  \<open>lookup\<close> is the first half (the cache, then the read-through that fills it),
  \<open>validate\<close> the whole.
\<close>

definition lookup ::
  "call set \<Rightarrow> string \<Rightarrow> sessionStore \<Rightarrow> (error + UserSession option) \<times> sessionStore" where
  "lookup F sessionId st =
     (case cache st sessionId of
        Some session \<Rightarrow> (Inr (Some session), st)
      | None \<Rightarrow>
          if FindOne sessionId \<in> F then (Inl RepositoryError, st)
          else (case findOne (collection st) sessionId of
                  Some session \<Rightarrow>
                    (Inr (Some session), st\<lparr>cache := (cache st)(sessionId \<mapsto> session)\<rparr>)
                | None \<Rightarrow> (Inr None, st)))"

definition expired :: "int \<Rightarrow> UserSession option \<Rightarrow> bool" where
  "expired now session = (case session of None \<Rightarrow> True | Some s \<Rightarrow> expiresAt s < now)"

definition validate ::
  "call set \<Rightarrow> int \<Rightarrow> string \<Rightarrow> sessionStore \<Rightarrow> (error + UserSession option) \<times> sessionStore" where
  "validate F now sessionId st =
     (case lookup F sessionId st of
        (Inl e, st1) \<Rightarrow> (Inl e, st1)
      | (Inr session, st1) \<Rightarrow>
          if expired now session
          then (case destroy F sessionId st1 of
                  (Inl e, st2) \<Rightarrow> (Inl e, st2)
                | (Inr u, st2) \<Rightarrow> (Inr None, st2))
          else (Inr session, st1))"

section \<open>Roles and permissions\<close>

text \<open>
  \<^verbatim>\<open>
  class RoleManager {
    private cache: RoleCache = { roles: new Map(), lastUpdated: new Date(0) };
    async loadRoles() {
      const roles = await db.collection('roles').find().toArray();
      this.cache.roles.clear();
      roles.forEach(role => { this.cache.roles.set(role.id, role); });
      this.cache.lastUpdated = new Date();
    }
    async getRole(roleId) {
      if (Date.now() - this.cache.lastUpdated.getTime() > 5 * 60 * 1000) {
        await this.loadRoles();
      }
      return this.cache.roles.get(roleId) || null;
    }
  \<close>
  The documents of the \<^verbatim>\<open>roles\<close> collection are the argument \<open>db\<close>.
\<close>

record RoleCache =
  roles :: "string \<rightharpoonup> Role"
  lastUpdated :: int

definition initial_RoleCache :: RoleCache where
  "initial_RoleCache = \<lparr> roles = Map.empty, lastUpdated = 0 \<rparr>"

definition set_roles :: "Role list \<Rightarrow> (string \<rightharpoonup> Role)" where
  "set_roles db = fold (\<lambda>r m. m(role_id r \<mapsto> r)) db Map.empty"

definition loadRoles :: "call set \<Rightarrow> int \<Rightarrow> Role list \<Rightarrow> RoleCache \<Rightarrow> (error + unit) \<times> RoleCache" where
  "loadRoles F now db c =
     (if FindRoles \<in> F then (Inl RepositoryError, c)
      else (Inr (), \<lparr> roles = set_roles db, lastUpdated = now \<rparr>))"

definition getRole ::
  "call set \<Rightarrow> int \<Rightarrow> Role list \<Rightarrow> string \<Rightarrow> RoleCache \<Rightarrow> (error + Role option) \<times> RoleCache" where
  "getRole F now db roleId c =
     (if now - lastUpdated c > 5 * 60 * 1000
      then (case loadRoles F now db c of
              (Inl e, c1) \<Rightarrow> (Inl e, c1)
            | (Inr u, c1) \<Rightarrow> (Inr (roles c1 roleId), c1))
      else (Inr (roles c roleId), c))"

text \<open>
  \<^verbatim>\<open>
    async validatePermissions(userId, requiredPermissions) {
      const session = await sessionStore.getCurrentSession(userId);
      if (!session) return false;
      const role = await this.getRole(session.role);
      if (!role) return false;
      return requiredPermissions.every(
        permission => role.permissions.includes(permission));
    }
  \<close>
  \<^verbatim>\<open>sessionStore.getCurrentSession\<close> is not in the source and the spec does not describe
  it: its answer is the argument \<open>getCurrentSession\<close>.
\<close>

definition validatePermissions ::
  "call set \<Rightarrow> int \<Rightarrow> Role list \<Rightarrow> (string \<Rightarrow> error + UserSession option) \<Rightarrow> string
     \<Rightarrow> string list \<Rightarrow> RoleCache \<Rightarrow> (error + bool) \<times> RoleCache" where
  "validatePermissions F now db getCurrentSession uid requiredPermissions c =
     (case getCurrentSession uid of
        Inl e \<Rightarrow> (Inl e, c)
      | Inr None \<Rightarrow> (Inr False, c)
      | Inr (Some session) \<Rightarrow>
          (case getRole F now db (role session) c of
             (Inl e, c1) \<Rightarrow> (Inl e, c1)
           | (Inr None, c1) \<Rightarrow> (Inr False, c1)
           | (Inr (Some r), c1) \<Rightarrow>
               (Inr (list_all (\<lambda>permission. permission \<in> set (role_permissions r))
                       requiredPermissions), c1)))"

section \<open>Session security\<close>

text \<open>
  Modelled from the spec: \<^verbatim>\<open>validateIP\<close>, \<^verbatim>\<open>validateUserAgent\<close> and
  \<^verbatim>\<open>validateDeviceId\<close> are called by \<^verbatim>\<open>SessionSecurity.validateSession\<close> and are not
  in the source. The spec has ``three independent checks (IP match, user-agent match,
  device-id match)'' of the request's values against the bound ones: each is the
  equality of its two arguments.
\<close>

definition validateIP :: "string \<Rightarrow> string \<Rightarrow> bool" where
  "validateIP current bound = (current = bound)"

definition validateUserAgent :: "string \<Rightarrow> string \<Rightarrow> bool" where
  "validateUserAgent current bound = (current = bound)"

definition validateDeviceId :: "string \<Rightarrow> string option \<Rightarrow> bool" where
  "validateDeviceId current bound = (Some current = bound)"

text \<open>
  \<^verbatim>\<open>
  static async validateSession(request, sessionId) {
    const session = await sessionStore.validate(sessionId);
    if (!session) return false;
    const securityChecks = [
      this.validateIP(request.ip, session.metadata.ip),
      this.validateUserAgent(request.headers['user-agent'], session.metadata.userAgent),
      this.validateDeviceId(await this.generateDeviceId(request), session.metadata.deviceId)
    ];
    return securityChecks.every(check => check === true);
  }
  \<close>
  \<^verbatim>\<open>generateDeviceId\<close> (a hash of what the client sends) is not in the source: it is
  the argument \<open>generateDeviceId\<close>.
\<close>

definition securityChecks :: "(Request \<Rightarrow> string) \<Rightarrow> Request \<Rightarrow> UserSession \<Rightarrow> bool list" where
  "securityChecks generateDeviceId req session =
     [ validateIP (req_ip req) (ip (metadata session)),
       validateUserAgent (req_userAgent req) (userAgent (metadata session)),
       validateDeviceId (generateDeviceId req) (deviceId (metadata session)) ]"

definition validateSession ::
  "call set \<Rightarrow> int \<Rightarrow> (Request \<Rightarrow> string) \<Rightarrow> Request \<Rightarrow> string \<Rightarrow> sessionStore
     \<Rightarrow> (error + bool) \<times> sessionStore" where
  "validateSession F now generateDeviceId req sessionId st =
     (case validate F now sessionId st of
        (Inl e, st1) \<Rightarrow> (Inl e, st1)
      | (Inr None, st1) \<Rightarrow> (Inr False, st1)
      | (Inr (Some session), st1) \<Rightarrow>
          (Inr (list_all (\<lambda>check. check = True) (securityChecks generateDeviceId req session)),
           st1))"

section \<open>Route protection and the audit log\<close>

text \<open>
  Modelled from the spec: \<^verbatim>\<open>auditLogger.log\<close> is called by \<^verbatim>\<open>withRoles\<close> and by the
  cleanup job and is not in the source. The spec has the audit sink append-only: a call
  that answers has added its entry at the end of the log, one that rejects has added
  nothing.
\<close>

definition auditLogger_log ::
  "call set \<Rightarrow> AuditEntry \<Rightarrow> AuditEntry list \<Rightarrow> (error + unit) \<times> AuditEntry list" where
  "auditLogger_log F entry lg =
     (if Log entry \<in> F then (Inl AuditSinkError, lg) else (Inr (), lg @ [entry]))"

text \<open>
  \<^verbatim>\<open>
  export function withRoles(roles) {
    return async function(request, next) {
      const session = request.session;
      if (!session) {
        return new NextResponse(JSON.stringify({ error: 'Unauthorized' }), { status: 401 });
      }
      if (!roles.includes(session.role)) {
        return new NextResponse(JSON.stringify({ error: 'Insufficient permissions' }),
                                { status: 403 });
      }
      // Log access attempt
      await auditLogger.log({ type: 'access', userId: session.userId, role: session.role,
                              resource: request.url, allowed: true });
      return next();
    };
  }
  \<close>
\<close>

datatype response = NextResponse string nat | Next

definition withRoles ::
  "call set \<Rightarrow> UserRole list \<Rightarrow> Request \<Rightarrow> AuditEntry list \<Rightarrow> (error + response) \<times> AuditEntry list" where
  "withRoles F allowedRoles req lg =
     (case req_session req of
        None \<Rightarrow> (Inr (NextResponse ''Unauthorized'' 401), lg)
      | Some session \<Rightarrow>
          if role session \<notin> set allowedRoles
          then (Inr (NextResponse ''Insufficient permissions'' 403), lg)
          else (case auditLogger_log F
                       (Access (userId session) (role session) (req_url req) True) lg of
                  (Inl e, lg1) \<Rightarrow> (Inl e, lg1)
                | (Inr u, lg1) \<Rightarrow> (Inr Next, lg1)))"

section \<open>The cleanup job\<close>

text \<open>
  \<^verbatim>\<open>
  const cleanupSessions = async () => {
    const expiredSessions = await sessionStore.collection.find({
      expiresAt: { $lt: new Date() } }).toArray();
    for (const session of expiredSessions) {
      await sessionStore.destroy(session.id);
      await auditLogger.log({ type: 'session_expired', userId: session.userId,
                              sessionId: session.id });
    }
  };
  \<close>
  \<open>sweep\<close> is the loop over the candidates, \<open>cleanupSessions\<close> the query and the loop.
\<close>

fun sweep ::
  "call set \<Rightarrow> UserSession list \<Rightarrow> sessionStore \<times> AuditEntry list
     \<Rightarrow> (error + unit) \<times> sessionStore \<times> AuditEntry list" where
  "sweep F [] (st, lg) = (Inr (), st, lg)"
| "sweep F (session # rest) (st, lg) =
     (case destroy F (sid session) st of
        (Inl e, st1) \<Rightarrow> (Inl e, st1, lg)
      | (Inr u, st1) \<Rightarrow>
          (case auditLogger_log F (SessionExpired (userId session) (sid session)) lg of
             (Inl e, lg1) \<Rightarrow> (Inl e, st1, lg1)
           | (Inr v, lg1) \<Rightarrow> sweep F rest (st1, lg1)))"

definition expiredSessions :: "int \<Rightarrow> UserSession list \<Rightarrow> UserSession list" where
  "expiredSessions now docs = filter (\<lambda>s. expiresAt s < now) docs"

definition cleanupSessions ::
  "call set \<Rightarrow> int \<Rightarrow> sessionStore \<times> AuditEntry list
     \<Rightarrow> (error + unit) \<times> sessionStore \<times> AuditEntry list" where
  "cleanupSessions F now w =
     (if FindExpired \<in> F then (Inl RepositoryError, w)
      else sweep F (expiredSessions now (collection (fst w))) w)"

text \<open>
  The sweep is rejected at a candidate when the removal of that session or the audit entry
  for it is among the calls that reject.
\<close>

definition rejected :: "call set \<Rightarrow> UserSession \<Rightarrow> bool" where
  "rejected F session =
     (DeleteOne (sid session) \<in> F \<or> Log (SessionExpired (userId session) (sid session)) \<in> F)"

text \<open>
  The store after the sessions of the ids \<open>ids\<close> have been removed from the cache and
  from the repository.
\<close>

definition removed :: "string list \<Rightarrow> sessionStore \<Rightarrow> sessionStore" where
  "removed ids st =
     st\<lparr>cache := (\<lambda>k. if k \<in> set ids then None else cache st k),
        collection := filter (\<lambda>x. sid x \<notin> set ids) (collection st)\<rparr>"

section \<open>Runs of later calls\<close>

text \<open>
  A session is absent from a store when neither the cache nor the repository answers for
  its id. \<open>validate_all\<close> is the store after a sequence of \<^verbatim>\<open>validate\<close> calls, each
  with its own rejecting calls, its own time and its own session id.
\<close>

definition absent :: "string \<Rightarrow> sessionStore \<Rightarrow> bool" where
  "absent sessionId st = (cache st sessionId = None \<and> findOne (collection st) sessionId = None)"

fun validate_all :: "(call set \<times> int \<times> string) list \<Rightarrow> sessionStore \<Rightarrow> sessionStore" where
  "validate_all [] st = st"
| "validate_all ((F, now, sessionId) # calls) st =
     validate_all calls (snd (validate F now sessionId st))"

section \<open>Concurrent callers of validate\<close>

text \<open>
  An \<^verbatim>\<open>async\<close> function runs without interruption up to an \<^verbatim>\<open>await\<close> and resumes
  later, after other callers may have run. \<^verbatim>\<open>validate\<close> is cut at its
  \<^verbatim>\<open>await this.collection.findOne(...)\<close>: a caller that has not begun (\<open>Start\<close>) reads
  the cache and either finishes (a hit) or issues the repository read and waits for it
  (\<open>Awaiting\<close>); a caller that waits resumes with the answer of the repository, fills the
  cache, and finishes (\<open>Done\<close>). The second component of the state counts the
  \<^verbatim>\<open>findOne\<close> calls that were issued. \<open>after_lookup\<close> is the rest of \<^verbatim>\<open>validate\<close>
  from the expiry test on, the same in both cases. \<open>run\<close> lets the callers of a list
  take steps in the order of a schedule of their indices.
\<close>

datatype task = Start string | Awaiting string | Done "error + UserSession option"

definition after_lookup ::
  "call set \<Rightarrow> int \<Rightarrow> string \<Rightarrow> UserSession option \<Rightarrow> sessionStore
     \<Rightarrow> (error + UserSession option) \<times> sessionStore" where
  "after_lookup F now sessionId session st =
     (if expired now session
      then (case destroy F sessionId st of
              (Inl e, st2) \<Rightarrow> (Inl e, st2)
            | (Inr u, st2) \<Rightarrow> (Inr None, st2))
      else (Inr session, st))"

definition validate_step ::
  "call set \<Rightarrow> int \<Rightarrow> task \<Rightarrow> sessionStore \<times> nat \<Rightarrow> task \<times> sessionStore \<times> nat" where
  "validate_step F now t w =
     (case t of
        Start sessionId \<Rightarrow>
          (case cache (fst w) sessionId of
             Some session \<Rightarrow>
               (Done (fst (after_lookup F now sessionId (Some session) (fst w))),
                snd (after_lookup F now sessionId (Some session) (fst w)), snd w)
           | None \<Rightarrow> (Awaiting sessionId, fst w, Suc (snd w)))
      | Awaiting sessionId \<Rightarrow>
          if FindOne sessionId \<in> F then (Done (Inl RepositoryError), w)
          else (case findOne (collection (fst w)) sessionId of
                  Some session \<Rightarrow>
                    (Done (fst (after_lookup F now sessionId (Some session)
                                  ((fst w)\<lparr>cache := (cache (fst w))(sessionId \<mapsto> session)\<rparr>))),
                     snd (after_lookup F now sessionId (Some session)
                            ((fst w)\<lparr>cache := (cache (fst w))(sessionId \<mapsto> session)\<rparr>)),
                     snd w)
                | None \<Rightarrow>
                    (Done (fst (after_lookup F now sessionId None (fst w))),
                     snd (after_lookup F now sessionId None (fst w)), snd w))
      | Done r \<Rightarrow> (Done r, w))"

fun run ::
  "call set \<Rightarrow> int \<Rightarrow> nat list \<Rightarrow> task list \<times> sessionStore \<times> nat
     \<Rightarrow> task list \<times> sessionStore \<times> nat" where
  "run F now [] c = c"
| "run F now (i # schedule) (ts, w) =
     (if i < length ts
      then run F now schedule (ts[i := fst (validate_step F now (ts ! i) w)],
                               snd (validate_step F now (ts ! i) w))
      else run F now schedule (ts, w))"

definition begun :: "task \<Rightarrow> bool" where
  "begun t = (case t of Start k \<Rightarrow> False | Awaiting k \<Rightarrow> True | Done r \<Rightarrow> True)"

section \<open>Example data\<close>

definition example_metadata :: Metadata where
  "example_metadata =
     \<lparr> ip = ''1.1.1.1'', userAgent = ''agent'', lastActive = 0, deviceId = Some ''device'' \<rparr>"

definition example_session :: UserSession where
  "example_session =
     \<lparr> sid = ''s1'', userId = ''u1'', token = ''t1'', role = ''viewer'',
       permissions = [''read'', ''write''], createdAt = 0, expiresAt = 1000,
       metadata = example_metadata \<rparr>"

definition example_store :: sessionStore where
  "example_store = \<lparr> cache = [''s1'' \<mapsto> example_session], collection = [example_session] \<rparr>"

definition example_expired :: UserSession where
  "example_expired = example_session\<lparr> sid := ''s0'', userId := ''u0'', expiresAt := 500 \<rparr>"

definition empty_store :: sessionStore where
  "empty_store = \<lparr> cache = Map.empty, collection = [] \<rparr>"

definition example_env :: env where
  "example_env =
     \<lparr> generateUUID = ''s2'', generateToken = ''t2'',
       request = \<lparr> req_ip = ''1.1.1.1'', req_userAgent = ''agent'', req_url = ''/api'',
                   req_session = None \<rparr> \<rparr>"

definition example_request :: Request where
  "example_request =
     \<lparr> req_ip = ''1.1.1.1'', req_userAgent = ''agent'', req_url = ''/api/keys'',
       req_session = Some example_session \<rparr>"

definition viewer_role :: Role where
  "viewer_role = \<lparr> role_id = ''viewer'', role_name = ''Viewer'', role_permissions = [''read''] \<rparr>"

definition example_RoleCache :: RoleCache where
  "example_RoleCache = \<lparr> roles = [''viewer'' \<mapsto> viewer_role], lastUpdated = 0 \<rparr>"

definition sweep_store :: sessionStore where
  "sweep_store = \<lparr> cache = Map.empty, collection = [example_expired, example_session] \<rparr>"

definition example_third :: UserSession where
  "example_third = example_session\<lparr> sid := ''s3'', userId := ''u3'', expiresAt := 700 \<rparr>"

definition sweep_store3 :: sessionStore where
  "sweep_store3 =
     \<lparr> cache = [''s0'' \<mapsto> example_expired],
       collection = [example_expired, example_session, example_third] \<rparr>"

definition uncached_store :: sessionStore where
  "uncached_store = \<lparr> cache = Map.empty, collection = [example_session] \<rparr>"

section \<open>Lemmas on the repository and the store\<close>

lemma findOne_filter_None:
  "findOne docs k = None \<Longrightarrow> findOne (filter P docs) k = None"
  by (induction docs) (auto simp: findOne_def)

lemma findOne_removed: "findOne (filter (\<lambda>s. sid s \<noteq> k) docs) k = None"
  by (induction docs) (auto simp: findOne_def)

lemma filter_absent: "findOne docs k = None \<Longrightarrow> filter (\<lambda>s. sid s \<noteq> k) docs = docs"
  by (induction docs) (auto simp: findOne_def split: if_splits)

lemma absent_destroy: "absent k st \<Longrightarrow> absent k (snd (destroy F k' st))"
  by (simp add: absent_def destroy_def findOne_filter_None)

lemma destroy_absent: "DeleteOne k \<notin> F \<Longrightarrow> absent k (snd (destroy F k st))"
  by (simp add: absent_def destroy_def findOne_removed)

lemma absent_lookup: "absent k st \<Longrightarrow> absent k (snd (lookup F k' st))"
  by (auto simp: absent_def lookup_def split: option.splits)

lemma absent_validate: "absent k st \<Longrightarrow> absent k (snd (validate F now k' st))"
  using absent_lookup [of k st F k'] absent_destroy [of k "snd (lookup F k' st)" F k']
  by (auto simp: validate_def split: prod.splits sum.splits)

lemma absent_validate_all: "absent k st \<Longrightarrow> absent k (validate_all calls st)"
  by (induction calls st rule: validate_all.induct) (auto simp: absent_validate)

lemma validate_absent_never: "absent k st \<Longrightarrow> fst (validate F now k st) \<noteq> Inr (Some s)"
  by (auto simp: absent_def validate_def lookup_def expired_def destroy_def split: prod.splits sum.splits option.splits if_splits)

lemma validate_absent_None:
  "absent k st \<Longrightarrow> FindOne k \<notin> F \<Longrightarrow> DeleteOne k \<notin> F \<Longrightarrow> fst (validate F now k st) = Inr None"
  by (auto simp: absent_def validate_def lookup_def expired_def destroy_def split: prod.splits sum.splits option.splits if_splits)

lemma expired_validate_result:
  "fst (lookup F k st) = Inr (Some s) \<Longrightarrow> expiresAt s < now \<Longrightarrow> DeleteOne k \<notin> F \<Longrightarrow>
   validate F now k st = (Inr None, snd (destroy F k (snd (lookup F k st))))"
  by (cases "lookup F k st") (auto simp: validate_def expired_def destroy_def split: prod.splits sum.splits)

subsection \<open>Lemmas on the sweep\<close>

lemma sweep_step:
  "sweep F (x # xs) (st, lg) =
     (if DeleteOne (sid x) \<in> F then (Inl RepositoryError, st, lg)
      else if Log (SessionExpired (userId x) (sid x)) \<in> F
      then (Inl AuditSinkError, snd (destroy F (sid x) st), lg)
      else sweep F xs (snd (destroy F (sid x) st), lg @ [SessionExpired (userId x) (sid x)]))"
  by (simp add: destroy_def auditLogger_log_def)

lemma sweep_append:
  "sweep F (pre @ post) w =
     (case sweep F pre w of (Inl e, w') \<Rightarrow> (Inl e, w') | (Inr u, w') \<Rightarrow> sweep F post w')"
proof (induction pre arbitrary: w)
  case Nil
  show ?case by (cases w) simp
next
  case (Cons x pre)
  obtain st lg where w: "w = (st, lg)" by (cases w)
  show ?case
    unfolding w append_Cons sweep_step by (simp add: Cons del: sweep.simps)
qed

lemma sweep_rejected:
  "rejected F s \<Longrightarrow> sweep F (s # post) w = sweep F [s] w \<and> (\<exists>e. fst (sweep F [s] w) = Inl e)"
proof -
  assume r: "rejected F s"
  obtain st lg where w: "w = (st, lg)" by (cases w)
  show ?thesis
    unfolding w sweep_step using r by (auto simp: rejected_def simp del: sweep.simps)
qed

lemma sweep_abort:
  "rejected F s \<Longrightarrow>
   sweep F (pre @ s # post) w = sweep F (pre @ [s]) w \<and> (\<exists>e. fst (sweep F (pre @ [s]) w) = Inl e)"
proof -
  assume r: "rejected F s"
  obtain x w' where p: "sweep F pre w = (x, w')" by (cases "sweep F pre w")
  show ?thesis
  proof (cases x)
    case (Inl e)
    with p show ?thesis by (simp add: sweep_append del: sweep.simps)
  next
    case (Inr u)
    with p sweep_rejected [OF r, of post w'] sweep_rejected [OF r, of "[]" w']
    show ?thesis by (simp add: sweep_append del: sweep.simps)
  qed
qed

lemma destroy_keeps:
  "t \<in> set (collection st) \<Longrightarrow> sid t \<noteq> k \<Longrightarrow> t \<in> set (collection (snd (destroy F k st)))"
  by (simp add: destroy_def)

lemma sweep_keeps:
  "t \<in> set (collection st) \<Longrightarrow> sid t \<notin> sid ` set xs \<Longrightarrow>
   t \<in> set (collection (fst (snd (sweep F xs (st, lg)))))"
proof (induction xs arbitrary: st lg)
  case Nil
  then show ?case by simp
next
  case (Cons x xs)
  from Cons.prems have d: "sid t \<noteq> sid x" and r: "sid t \<notin> sid ` set xs"
    by auto
  have k: "t \<in> set (collection (snd (destroy F (sid x) st)))"
    using Cons.prems(1) d by (rule destroy_keeps)
  show ?case
    unfolding sweep_step using Cons.prems(1) k Cons.IH [OF k r]
    by (simp del: sweep.simps)
qed

lemma sweep_log:
  "e \<in> set (snd (snd (sweep F xs (st, lg)))) \<Longrightarrow>
   e \<in> set lg \<or> (\<exists>x \<in> set xs. e = SessionExpired (userId x) (sid x))"
proof (induction xs arbitrary: st lg)
  case Nil
  then show ?case by simp
next
  case (Cons x xs)
  show ?case
  proof (cases "DeleteOne (sid x) \<in> F \<or> Log (SessionExpired (userId x) (sid x)) \<in> F")
    case True
    with Cons.prems show ?thesis
      unfolding sweep_step by (auto simp del: sweep.simps split: if_splits)
  next
    case False
    with Cons.prems have "e \<in> set (snd (snd (sweep F xs (snd (destroy F (sid x) st),
        lg @ [SessionExpired (userId x) (sid x)]))))"
      unfolding sweep_step by (simp del: sweep.simps)
    from Cons.IH [OF this] show ?thesis by auto
  qed
qed

lemma cleanup_candidates_stored:
  "expiredSessions now docs = pre @ s # post \<Longrightarrow> t \<in> set post \<Longrightarrow> t \<in> set docs"
proof -
  assume a: "expiredSessions now docs = pre @ s # post" "t \<in> set post"
  then have "t \<in> set (expiredSessions now docs)" by simp
  then show ?thesis by (simp add: expiredSessions_def)
qed

lemma removed_Nil: "removed [] st = st"
  by (simp add: removed_def)

lemma removed_Cons:
  "DeleteOne k \<notin> F \<Longrightarrow> removed ks (snd (destroy F k st)) = removed (k # ks) st"
  by (auto simp: removed_def destroy_def fun_eq_iff intro!: filter_cong)

lemma removed_snoc:
  "DeleteOne k \<notin> F \<Longrightarrow> snd (destroy F k (removed ks st)) = removed (ks @ [k]) st"
proof -
  assume d: "DeleteOne k \<notin> F"
  have c: "(\<lambda>j. if j \<in> set ks then None else cache st j)(k := None)
      = (\<lambda>j. if j = k \<or> j \<in> set ks then None else cache st j)"
    by (auto simp: fun_eq_iff)
  have f: "filter (\<lambda>x. sid x \<notin> set ks \<and> sid x \<noteq> k) (collection st)
      = filter (\<lambda>x. sid x \<noteq> k \<and> sid x \<notin> set ks) (collection st)"
    by (simp add: conj_commute)
  show ?thesis
    using d by (simp add: removed_def destroy_def c f)
qed

lemma sweep_accepted:
  "\<forall>x \<in> set pre. \<not> rejected F x \<Longrightarrow>
   sweep F pre (st, lg)
     = (Inr (), removed (map sid pre) st, lg @ map (\<lambda>x. SessionExpired (userId x) (sid x)) pre)"
proof (induction pre arbitrary: st lg)
  case Nil
  show ?case by (simp add: removed_Nil)
next
  case (Cons x pre)
  from Cons.prems have d: "DeleteOne (sid x) \<notin> F"
    and l: "Log (SessionExpired (userId x) (sid x)) \<notin> F"
    and r: "\<forall>y \<in> set pre. \<not> rejected F y"
    by (auto simp: rejected_def)
  show ?case
    unfolding sweep_step using d l
    by (simp add: Cons.IH [OF r] removed_Cons [OF d] del: sweep.simps)
qed

lemma sweep_first_rejected:
  "\<forall>x \<in> set pre. \<not> rejected F x \<Longrightarrow> rejected F s \<Longrightarrow>
   sweep F (pre @ s # post) (st, lg) =
     (if DeleteOne (sid s) \<in> F
      then (Inl RepositoryError, removed (map sid pre) st,
            lg @ map (\<lambda>x. SessionExpired (userId x) (sid x)) pre)
      else (Inl AuditSinkError, removed (map sid (pre @ [s])) st,
            lg @ map (\<lambda>x. SessionExpired (userId x) (sid x)) pre))"
proof -
  assume a: "\<forall>x \<in> set pre. \<not> rejected F x" and r: "rejected F s"
  have "sweep F (pre @ s # post) (st, lg)
      = sweep F (s # post) (removed (map sid pre) st,
                            lg @ map (\<lambda>x. SessionExpired (userId x) (sid x)) pre)"
    by (simp add: sweep_append sweep_accepted [OF a] del: sweep.simps)
  also have "\<dots> =
     (if DeleteOne (sid s) \<in> F
      then (Inl RepositoryError, removed (map sid pre) st,
            lg @ map (\<lambda>x. SessionExpired (userId x) (sid x)) pre)
      else (Inl AuditSinkError, removed (map sid (pre @ [s])) st,
            lg @ map (\<lambda>x. SessionExpired (userId x) (sid x)) pre))"
    unfolding sweep_step using r removed_snoc [of "sid s" F "map sid pre" st]
    by (auto simp: rejected_def simp del: sweep.simps)
  finally show ?thesis .
qed

subsection \<open>Lemmas on the schedules\<close>

text \<open>
  One caller that takes its two steps alone does what \<^verbatim>\<open>validate\<close> does, and issues
  one read on a cache miss and none on a hit.
\<close>

lemma run_single_validate:
  "run F now [0, 0] ([Start k], st, r)
     = ([Done (fst (validate F now k st))], snd (validate F now k st),
        (if cache st k = None then Suc r else r))"
  by (auto simp: validate_step_def after_lookup_def validate_def lookup_def
        split: option.splits prod.splits sum.splits)

lemma run_append: "run F now (xs @ ys) c = run F now ys (run F now xs c)"
proof (induction xs arbitrary: c)
  case Nil
  show ?case by simp
next
  case (Cons i xs)
  obtain ts w where c: "c = (ts, w)" by (cases c)
  show ?case unfolding c by (simp add: Cons)
qed

lemma validate_step_Start_miss:
  "cache st k = None \<Longrightarrow> validate_step F now (Start k) (st, r) = (Awaiting k, st, Suc r)"
  by (simp add: validate_step_def)

lemma run_starts:
  "cache st k = None \<Longrightarrow> m \<le> n \<Longrightarrow>
   run F now [0..<m] (replicate n (Start k), st, r)
     = (replicate m (Awaiting k) @ replicate (n - m) (Start k), st, r + m)"
proof (induction m)
  case 0
  show ?case by simp
next
  case (Suc m)
  from Suc.prems have m: "m < n" by simp
  have pre: "run F now [0..<m] (replicate n (Start k), st, r)
     = (replicate m (Awaiting k) @ replicate (n - m) (Start k), st, r + m)"
    using Suc.IH Suc.prems by simp
  have nm: "replicate (n - m) (Start k) = Start k # replicate (n - Suc m) (Start k)"
    using m by (cases "n - m") (auto simp: Suc_diff_Suc)
  have upd: "(replicate m (Awaiting k) @ Start k # replicate (n - Suc m) (Start k))[m := Awaiting k]
     = replicate (Suc m) (Awaiting k) @ replicate (n - Suc m) (Start k)"
    by (simp add: list_update_append replicate_append_same)
  have nth: "(replicate m (Awaiting k) @ Start k # replicate (n - Suc m) (Start k)) ! m = Start k"
    by (simp add: nth_append)
  have len: "m < length (replicate m (Awaiting k) @ Start k # replicate (n - Suc m) (Start k))"
    by simp
  have "run F now [0..<Suc m] (replicate n (Start k), st, r)
      = run F now [m] (replicate m (Awaiting k) @ Start k # replicate (n - Suc m) (Start k), st, r + m)"
    by (simp add: run_append pre nm del: replicate.simps)
  also have "\<dots> = (replicate (Suc m) (Awaiting k) @ replicate (n - Suc m) (Start k), st, r + Suc m)"
    using len nth upd validate_step_Start_miss [OF Suc.prems(1), of F now "r + m"]
    by (simp del: replicate.simps)
  finally show ?case .
qed

lemma validate_step_begun:
  "begun t \<Longrightarrow> begun (fst (validate_step F now t w)) \<and> snd (snd (validate_step F now t w)) = snd w"
  by (cases t) (auto simp: begun_def validate_step_def split: option.splits)

lemma run_begun:
  "list_all begun ts \<Longrightarrow> snd (snd (run F now schedule (ts, w))) = snd w"
proof (induction schedule arbitrary: ts w)
  case Nil
  show ?case by simp
next
  case (Cons i schedule)
  show ?case
  proof (cases "i < length ts")
    case False
    then show ?thesis using Cons by simp
  next
    case True
    have b: "begun (ts ! i)"
      using Cons.prems True by (simp add: list_all_length)
    note s = validate_step_begun [OF b, of F now w]
    have "list_all begun (ts[i := fst (validate_step F now (ts ! i) w)])"
      using Cons.prems s by (auto simp: list_all_iff dest!: set_update_subset_insert [THEN subsetD])
    from Cons.IH [OF this, of "snd (validate_step F now (ts ! i) w)"] s True
    show ?thesis by simp
  qed
qed

section \<open>Expiry on validation\<close>

text \<open>
  Claim C1, as amended. The source tests \<^verbatim>\<open>session.expiresAt < new Date()\<close>: a session
  is expired when its expiry time is strictly before \<open>now\<close>. For a session that
  \<^verbatim>\<open>validate\<close> finds under its id (in the cache, or in the repository behind a cache
  miss) with \<open>expiresAt < now\<close>, and a removal that the repository does not reject,
  \<^verbatim>\<open>validate\<close> returns \<^verbatim>\<open>null\<close>, the session is gone from the cache and from the
  repository, and after any sequence of later \<^verbatim>\<open>validate\<close> calls a \<^verbatim>\<open>validate\<close> of
  that id never returns a session: it returns \<^verbatim>\<open>null\<close> whenever the repository
  answers.
\<close>

theorem validate_expired:
  "fst (lookup F sessionId st) = Inr (Some s) \<Longrightarrow> expiresAt s < now \<Longrightarrow> DeleteOne sessionId \<notin> F \<Longrightarrow>
   fst (validate F now sessionId st) = Inr None \<and>
   absent sessionId (snd (validate F now sessionId st)) \<and>
   (\<forall>calls F' now' s'.
      fst (validate F' now' sessionId (validate_all calls (snd (validate F now sessionId st))))
        \<noteq> Inr (Some s') \<and>
      (FindOne sessionId \<notin> F' \<and> DeleteOne sessionId \<notin> F' \<longrightarrow>
       fst (validate F' now' sessionId (validate_all calls (snd (validate F now sessionId st))))
         = Inr None))"
proof -
  assume a: "fst (lookup F sessionId st) = Inr (Some s)" "expiresAt s < now" "DeleteOne sessionId \<notin> F"
  have v: "validate F now sessionId st = (Inr None, snd (destroy F sessionId (snd (lookup F sessionId st))))"
    using a by (rule expired_validate_result)
  have ab: "absent sessionId (snd (validate F now sessionId st))"
    using a(3) by (simp add: v destroy_absent)
  show ?thesis
    using ab v by (simp add: absent_validate_all validate_absent_never validate_absent_None)
qed

text \<open>
  The theorem at the example store, one millisecond after the expiry time of the cached
  session.
\<close>

theorem validate_expired_witness:
  "fst (lookup {} ''s1'' example_store) = Inr (Some example_session) \<and>
   expiresAt example_session < 1001 \<and>
   fst (validate {} 1001 ''s1'' example_store) = Inr None \<and>
   absent ''s1'' (snd (validate {} 1001 ''s1'' example_store)) \<and>
   fst (validate {} 5000 ''s1''
          (validate_all [({}, 2000, ''s1'')] (snd (validate {} 1001 ''s1'' example_store))))
     = Inr None"
proof -
  have h1: "fst (lookup {} ''s1'' example_store) = Inr (Some example_session)"
    by (simp add: lookup_def example_store_def)
  have h2: "expiresAt example_session < 1001"
    by (simp add: example_session_def)
  have h3: "DeleteOne ''s1'' \<notin> ({} :: call set)"
    by simp
  note t = validate_expired [OF h1 h2 h3]
  have a: "fst (validate {} 1001 ''s1'' example_store) = Inr None"
    using t by blast
  have b: "absent ''s1'' (snd (validate {} 1001 ''s1'' example_store))"
    using t by blast
  have "FindOne ''s1'' \<notin> ({} :: call set) \<and> DeleteOne ''s1'' \<notin> ({} :: call set) \<longrightarrow>
     fst (validate {} 5000 ''s1''
            (validate_all [({}, 2000, ''s1'')] (snd (validate {} 1001 ''s1'' example_store))))
       = Inr None"
    using t by blast
  then have c: "fst (validate {} 5000 ''s1''
            (validate_all [({}, 2000, ''s1'')] (snd (validate {} 1001 ''s1'' example_store))))
       = Inr None"
    by simp
  show ?thesis using h1 h2 a b c by (simp only: simp_thms)
qed

text \<open>
  Against C1 as stated: at the boundary instant \<open>now = expiresAt\<close> the cached session is
  returned, not \<^verbatim>\<open>null\<close>.
\<close>

theorem validate_boundary_counterexample:
  "expiresAt example_session \<le> 1000 \<and>
   fst (validate {} 1000 ''s1'' example_store) = Inr (Some example_session)"
  by (simp add: validate_def lookup_def expired_def example_store_def example_session_def)

section \<open>Permission checks\<close>

text \<open>
  Claim C2, as amended. \<^verbatim>\<open>validatePermissions\<close> does not read the permissions stored
  in the session: it resolves the role of the session through the role cache and tests the
  required permissions against the permissions of that role. It returns true if and only
  if the user has a current session, the role of that session resolves to a role, and
  every required permission is among the permissions of that role; a session whose role
  grants exactly \<open>read\<close> is denied a request that requires \<open>read\<close> and \<open>write\<close>.
\<close>

theorem validatePermissions_role_subset:
  "(fst (validatePermissions F now db getCurrentSession uid required c) = Inr True \<longleftrightarrow>
      (\<exists>session r. getCurrentSession uid = Inr (Some session) \<and>
          fst (getRole F now db (role session) c) = Inr (Some r) \<and>
          set required \<subseteq> set (role_permissions r))) \<and>
   (\<forall>session r. getCurrentSession uid = Inr (Some session) \<and>
        fst (getRole F now db (role session) c) = Inr (Some r) \<longrightarrow>
        fst (validatePermissions F now db getCurrentSession uid required c)
          = Inr (set required \<subseteq> set (role_permissions r)))"
  by (auto simp: validatePermissions_def list_all_iff split: sum.splits option.splits prod.splits)

text \<open>
  The theorem at a session of role \<open>viewer\<close>, a role that grants \<open>read\<close> alone.
\<close>

theorem validatePermissions_witness:
  "fst (validatePermissions {} 1000 [viewer_role] (\<lambda>u. Inr (Some example_session)) ''u1''
          [''read'', ''write''] example_RoleCache) = Inr False \<and>
   fst (validatePermissions {} 1000 [viewer_role] (\<lambda>u. Inr (Some example_session)) ''u1''
          [''read''] example_RoleCache) = Inr True"
proof -
  have s: "(\<lambda>u::string. (Inr (Some example_session) :: error + UserSession option)) ''u1'' = Inr (Some example_session)"
    by simp
  have r: "fst (getRole {} 1000 [viewer_role] (role example_session) example_RoleCache) = Inr (Some viewer_role)"
    by (simp add: getRole_def example_session_def example_RoleCache_def)
  have p: "set (role_permissions viewer_role) = {''read''}"
    by (simp add: viewer_role_def)
  from validatePermissions_role_subset [of "{}" 1000 "[viewer_role]" "\<lambda>u. Inr (Some example_session)" "''u1''" "[''read'', ''write'']" example_RoleCache]
       validatePermissions_role_subset [of "{}" 1000 "[viewer_role]" "\<lambda>u. Inr (Some example_session)" "''u1''" "[''read'']" example_RoleCache]
       s r p
  show ?thesis by simp
qed

text \<open>
  Against C2 as stated: the example session is granted \<open>read\<close> and \<open>write\<close>, its role
  grants \<open>read\<close> alone, and a request that requires \<open>write\<close> is denied although
  \<open>write\<close> is in the permission set of the session.
\<close>

theorem validatePermissions_counterexample:
  "set [''write''] \<subseteq> set (permissions example_session) \<and>
   fst (validatePermissions {} 1000 [viewer_role] (\<lambda>u. Inr (Some example_session)) ''u1''
          [''write''] example_RoleCache) = Inr False"
  by (simp add: validatePermissions_def getRole_def example_session_def example_RoleCache_def viewer_role_def)

text \<open>
  Claim C10. For a session whose role resolves to a role, the permission check with no
  required permission returns true.
\<close>

theorem validatePermissions_empty:
  "getCurrentSession uid = Inr (Some session) \<Longrightarrow>
   fst (getRole F now db (role session) c) = Inr (Some r) \<Longrightarrow>
   fst (validatePermissions F now db getCurrentSession uid [] c) = Inr True"
  by (auto simp: validatePermissions_def split: sum.splits option.splits prod.splits)

text \<open>The theorem at the example session and its role.\<close>

theorem validatePermissions_empty_witness:
  "fst (getRole {} 1000 [viewer_role] (role example_session) example_RoleCache) = Inr (Some viewer_role) \<and>
   fst (validatePermissions {} 1000 [viewer_role] (\<lambda>u. Inr (Some example_session)) ''u1'' []
          example_RoleCache) = Inr True"
proof -
  have r: "fst (getRole {} 1000 [viewer_role] (role example_session) example_RoleCache) = Inr (Some viewer_role)"
    by (simp add: getRole_def example_session_def example_RoleCache_def)
  have s: "(\<lambda>u::string. (Inr (Some example_session) :: error + UserSession option)) ''u1'' = Inr (Some example_session)"
    by simp
  from validatePermissions_empty [of "\<lambda>u. Inr (Some example_session)" "''u1''", OF s r] r
  show ?thesis by simp
qed

section \<open>A create whose repository write fails\<close>

text \<open>
  Claim C3, as amended. \<^verbatim>\<open>create\<close> sets the cache entry before it awaits
  \<^verbatim>\<open>insertOne\<close>, and nothing encloses the write. When the repository write is rejected,
  \<^verbatim>\<open>create\<close> fails with the error of the repository and the repository is unchanged,
  and the cache entry of the new session is not rolled back: it stays in the cache.
\<close>

theorem create_repository_failure:
  "InsertOne (generateUUID e) \<in> F \<Longrightarrow>
   fst (create F e now uid r perms st) = Inl RepositoryError \<and>
   collection (snd (create F e now uid r perms st)) = collection st \<and>
   cache (snd (create F e now uid r perms st))
     = (cache st)(generateUUID e \<mapsto> new_session e now uid r perms)"
  by (simp add: create_def Let_def new_session_def)

text \<open>The theorem at an empty store, with the write of session \<open>s2\<close> rejected.\<close>

theorem create_repository_failure_witness:
  "InsertOne (generateUUID example_env) \<in> {InsertOne ''s2''} \<and>
   fst (create {InsertOne ''s2''} example_env 0 ''u2'' ''viewer'' [''read''] empty_store)
     = Inl RepositoryError \<and>
   collection (snd (create {InsertOne ''s2''} example_env 0 ''u2'' ''viewer'' [''read''] empty_store)) = []"
proof -
  have h: "InsertOne (generateUUID example_env) \<in> {InsertOne ''s2''}"
    by (simp add: example_env_def)
  from create_repository_failure [OF h, of 0 "''u2''" "''viewer''" "[''read'']" empty_store] h
  show ?thesis by (simp add: empty_store_def)
qed

text \<open>
  Against C3 as stated: session \<open>s2\<close> is in neither store before, the write is
  rejected, and afterwards the cache holds the session.
\<close>

theorem create_no_rollback_counterexample:
  "absent ''s2'' empty_store \<and>
   fst (create {InsertOne ''s2''} example_env 0 ''u2'' ''viewer'' [''read''] empty_store)
     = Inl RepositoryError \<and>
   cache (snd (create {InsertOne ''s2''} example_env 0 ''u2'' ''viewer'' [''read''] empty_store)) ''s2''
     = Some (new_session example_env 0 ''u2'' ''viewer'' [''read''])"
  by (simp add: create_def Let_def new_session_def example_env_def empty_store_def absent_def findOne_def)

section \<open>The security check\<close>

text \<open>
  Claim C4. \<^verbatim>\<open>validateSession\<close> returns true exactly when \<^verbatim>\<open>validate\<close> returns a
  session and all three comparisons pass (the IP, the user agent and the device id of the
  request are the bound ones); when exactly one of the three differs from the bound value
  and the other two match, it returns false.
\<close>

theorem validateSession_all_three:
  "(fst (validateSession F now generateDeviceId req sessionId st) = Inr True \<longleftrightarrow>
      (\<exists>session. fst (validate F now sessionId st) = Inr (Some session) \<and>
         req_ip req = ip (metadata session) \<and>
         req_userAgent req = userAgent (metadata session) \<and>
         Some (generateDeviceId req) = deviceId (metadata session))) \<and>
   (\<forall>session. fst (validate F now sessionId st) = Inr (Some session) \<and>
      ((req_ip req \<noteq> ip (metadata session) \<and>
        req_userAgent req = userAgent (metadata session) \<and>
        Some (generateDeviceId req) = deviceId (metadata session)) \<or>
       (req_ip req = ip (metadata session) \<and>
        req_userAgent req \<noteq> userAgent (metadata session) \<and>
        Some (generateDeviceId req) = deviceId (metadata session)) \<or>
       (req_ip req = ip (metadata session) \<and>
        req_userAgent req = userAgent (metadata session) \<and>
        Some (generateDeviceId req) \<noteq> deviceId (metadata session))) \<longrightarrow>
      fst (validateSession F now generateDeviceId req sessionId st) = Inr False)"
  by (auto simp: validateSession_def securityChecks_def validateIP_def validateUserAgent_def
        validateDeviceId_def split: prod.splits sum.splits option.splits)

text \<open>
  The theorem at the example session: the matching request passes, the same request from
  another IP fails.
\<close>

theorem validateSession_witness:
  "fst (validate {} 1000 ''s1'' example_store) = Inr (Some example_session) \<and>
   fst (validateSession {} 1000 (\<lambda>r. ''device'') example_request ''s1'' example_store) = Inr True \<and>
   fst (validateSession {} 1000 (\<lambda>r. ''device'') (example_request\<lparr>req_ip := ''2.2.2.2''\<rparr>) ''s1''
          example_store) = Inr False"
proof -
  have v: "fst (validate {} 1000 ''s1'' example_store) = Inr (Some example_session)"
    by (simp add: validate_def lookup_def expired_def example_store_def example_session_def)
  have m: "ip (metadata example_session) = ''1.1.1.1''" "userAgent (metadata example_session) = ''agent''"
     "deviceId (metadata example_session) = Some ''device''"
    by (simp_all add: example_session_def example_metadata_def)
  have q: "req_ip example_request = ''1.1.1.1''" "req_userAgent example_request = ''agent''"
    by (simp_all add: example_request_def)
  from validateSession_all_three [of "{}" 1000 "\<lambda>r. ''device''" example_request "''s1''" example_store]
       validateSession_all_three [of "{}" 1000 "\<lambda>r. ''device''" "example_request\<lparr>req_ip := ''2.2.2.2''\<rparr>" "''s1''" example_store]
       v m q
  show ?thesis by simp
qed

section \<open>The audit entries of the access guard\<close>

text \<open>
  Claim C5 at a request the guard denies. The guard of the roles \<open>admin\<close> and
  \<open>enterprise_admin\<close> answers a session of role \<open>viewer\<close> with status 403 and a
  request without a session with status 401, and in both cases the audit log is as it
  was: the entry is written after the two early returns, on the allowed path only.
\<close>

theorem withRoles_denied_not_audited:
  "role example_session \<notin> set [''admin'', ''enterprise_admin''] \<and>
   withRoles {} [''admin'', ''enterprise_admin''] example_request []
     = (Inr (NextResponse ''Insufficient permissions'' 403), []) \<and>
   withRoles {} [''admin'', ''enterprise_admin''] (example_request\<lparr>req_session := None\<rparr>) []
     = (Inr (NextResponse ''Unauthorized'' 401), []) \<and>
   withRoles {} [''viewer''] example_request []
     = (Inr Next, [Access ''u1'' ''viewer'' ''/api/keys'' True])"
  by (simp add: withRoles_def auditLogger_log_def example_request_def example_session_def)

section \<open>A role reload that fails\<close>

text \<open>
  Claim C6, as amended. \<^verbatim>\<open>getRole\<close> awaits \<^verbatim>\<open>loadRoles\<close> with nothing around it.
  When a call triggers the reload and the read of the roles is rejected, the cached roles
  and \<^verbatim>\<open>lastUpdated\<close> are unchanged and the call fails with the error of the
  repository: it does not answer from the cache. Any later call triggers the reload
  again, and answers from the reloaded roles when the read succeeds.
\<close>

theorem getRole_reload_failure:
  "now - lastUpdated c > 5 * 60 * 1000 \<Longrightarrow> FindRoles \<in> F \<Longrightarrow>
   getRole F now db roleId c = (Inl RepositoryError, c) \<and>
   (\<forall>F' now' db' roleId'. now \<le> now' \<and> FindRoles \<notin> F' \<longrightarrow>
      getRole F' now' db' roleId' (snd (getRole F now db roleId c))
        = (Inr (set_roles db' roleId'), \<lparr> roles = set_roles db', lastUpdated = now' \<rparr>))"
  by (simp add: getRole_def loadRoles_def)

text \<open>The theorem at the example role cache, just past the refresh interval.\<close>

theorem getRole_reload_failure_witness:
  "300001 - lastUpdated example_RoleCache > 5 * 60 * 1000 \<and> FindRoles \<in> {FindRoles} \<and>
   getRole {FindRoles} 300001 [viewer_role] ''viewer'' example_RoleCache
     = (Inl RepositoryError, example_RoleCache) \<and>
   fst (getRole {} 300002 [viewer_role] ''viewer''
          (snd (getRole {FindRoles} 300001 [viewer_role] ''viewer'' example_RoleCache)))
     = Inr (Some viewer_role)"
proof -
  have h1: "300001 - lastUpdated example_RoleCache > 5 * 60 * 1000"
    by (simp add: example_RoleCache_def)
  have h2: "FindRoles \<in> {FindRoles}" by simp
  have r: "set_roles [viewer_role] ''viewer'' = Some viewer_role"
    by (simp add: set_roles_def viewer_role_def)
  note t = getRole_reload_failure [OF h1 h2, of "[viewer_role]" "''viewer''"]
  have a: "getRole {FindRoles} 300001 [viewer_role] ''viewer'' example_RoleCache
     = (Inl RepositoryError, example_RoleCache)"
    using t by blast
  have "300001 \<le> (300002::int) \<and> FindRoles \<notin> ({}::call set) \<longrightarrow>
     getRole {} 300002 [viewer_role] ''viewer''
          (snd (getRole {FindRoles} 300001 [viewer_role] ''viewer'' example_RoleCache))
     = (Inr (set_roles [viewer_role] ''viewer''),
        \<lparr> roles = set_roles [viewer_role], lastUpdated = 300002 \<rparr>)"
    using t by blast
  then have b: "fst (getRole {} 300002 [viewer_role] ''viewer''
          (snd (getRole {FindRoles} 300001 [viewer_role] ''viewer'' example_RoleCache)))
     = Inr (Some viewer_role)"
    by (simp add: r)
  show ?thesis using h1 a b by simp
qed

text \<open>
  Against C6 as stated: the cache holds the role \<open>viewer\<close>, the reload fails, and the
  call ends in the error, not in the cached role.
\<close>

theorem getRole_reload_failure_counterexample:
  "300001 - lastUpdated example_RoleCache > 5 * 60 * 1000 \<and>
   roles example_RoleCache ''viewer'' = Some viewer_role \<and>
   fst (getRole {FindRoles} 300001 [viewer_role] ''viewer'' example_RoleCache) = Inl RepositoryError"
  by (simp add: getRole_def loadRoles_def example_RoleCache_def)

section \<open>A sweep with a failing candidate\<close>

text \<open>
  Claim C8, as amended. The loop of \<^verbatim>\<open>cleanupSessions\<close> awaits \<^verbatim>\<open>destroy\<close> and
  \<^verbatim>\<open>auditLogger.log\<close> with nothing around them. When the query of the expired
  sessions answers and the first candidate whose removal or audit entry is rejected is
  \<open>s\<close>, the sweep ends in the error of that call (\<^verbatim>\<open>RepositoryError\<close> when the
  removal of \<open>s\<close> is rejected, the error of the audit sink when its audit entry is).
  Every candidate before \<open>s\<close> has been removed from the cache and the repository and
  has its \<^verbatim>\<open>session_expired\<close> entry, in order, at the end of the log; \<open>s\<close> itself is
  removed only when it was its audit entry that failed; and no candidate after \<open>s\<close>
  is processed: one whose id is not the id of \<open>s\<close> or of an earlier candidate is still in
  the repository, and the sweep has written no audit entry for it.
\<close>

theorem cleanupSessions_aborts:
  "expiredSessions now (collection (fst w)) = pre @ s # post \<Longrightarrow> FindExpired \<notin> F \<Longrightarrow>
   (\<forall>x \<in> set pre. \<not> rejected F x) \<Longrightarrow> rejected F s \<Longrightarrow>
   cleanupSessions F now w =
     (if DeleteOne (sid s) \<in> F
      then (Inl RepositoryError, removed (map sid pre) (fst w),
            snd w @ map (\<lambda>x. SessionExpired (userId x) (sid x)) pre)
      else (Inl AuditSinkError, removed (map sid (pre @ [s])) (fst w),
            snd w @ map (\<lambda>x. SessionExpired (userId x) (sid x)) pre)) \<and>
   (\<forall>t \<in> set post. sid t \<notin> sid ` set (pre @ [s]) \<longrightarrow>
      t \<in> set (collection (fst (snd (cleanupSessions F now w)))) \<and>
      (SessionExpired (userId t) (sid t) \<in> set (snd (snd (cleanupSessions F now w))) \<longrightarrow>
       SessionExpired (userId t) (sid t) \<in> set (snd w)))"
proof -
  assume c: "expiredSessions now (collection (fst w)) = pre @ s # post"
    and q: "FindExpired \<notin> F"
    and a: "\<forall>x \<in> set pre. \<not> rejected F x" and r: "rejected F s"
  obtain st lg where w: "w = (st, lg)" by (cases w)
  have eq: "cleanupSessions F now w = sweep F (pre @ [s]) w"
    using q c sweep_abort [OF r, of pre post w] by (simp add: cleanupSessions_def)
  have first: "cleanupSessions F now w =
     (if DeleteOne (sid s) \<in> F
      then (Inl RepositoryError, removed (map sid pre) (fst w),
            snd w @ map (\<lambda>x. SessionExpired (userId x) (sid x)) pre)
      else (Inl AuditSinkError, removed (map sid (pre @ [s])) (fst w),
            snd w @ map (\<lambda>x. SessionExpired (userId x) (sid x)) pre))"
    using q c sweep_first_rejected [OF a r, of post st lg] w
    by (simp add: cleanupSessions_def del: sweep.simps)
  have rest: "\<forall>t \<in> set post. sid t \<notin> sid ` set (pre @ [s]) \<longrightarrow>
      t \<in> set (collection (fst (snd (cleanupSessions F now w)))) \<and>
      (SessionExpired (userId t) (sid t) \<in> set (snd (snd (cleanupSessions F now w))) \<longrightarrow>
       SessionExpired (userId t) (sid t) \<in> set (snd w))"
  proof (intro ballI impI conjI)
    fix t assume t: "t \<in> set post" and d: "sid t \<notin> sid ` set (pre @ [s])"
    have "t \<in> set (collection st)"
      using cleanup_candidates_stored [OF c t] w by simp
    then show "t \<in> set (collection (fst (snd (cleanupSessions F now w))))"
      using sweep_keeps [of t st "pre @ [s]" F lg] d eq w by simp
    assume "SessionExpired (userId t) (sid t) \<in> set (snd (snd (cleanupSessions F now w)))"
    then have "SessionExpired (userId t) (sid t) \<in> set lg \<or>
       (\<exists>x \<in> set (pre @ [s]). SessionExpired (userId t) (sid t) = SessionExpired (userId x) (sid x))"
      using sweep_log [of "SessionExpired (userId t) (sid t)" F "pre @ [s]" st lg] eq w by simp
    then show "SessionExpired (userId t) (sid t) \<in> set (snd w)"
      using d w by auto
  qed
  show ?thesis using first rest by (rule conjI)
qed

text \<open>
  The theorem at a repository of three expired sessions, the audit entry of the second
  rejected: the first is removed and audited, the second is removed, the third is left.
\<close>

theorem cleanupSessions_aborts_witness:
  "expiredSessions 2000 (collection (fst (sweep_store3, []::AuditEntry list)))
     = [example_expired] @ example_session # [example_third] \<and>
   \<not> rejected {Log (SessionExpired ''u1'' ''s1'')} example_expired \<and>
   rejected {Log (SessionExpired ''u1'' ''s1'')} example_session \<and>
   cleanupSessions {Log (SessionExpired ''u1'' ''s1'')} 2000 (sweep_store3, [])
     = (Inl AuditSinkError, \<lparr> cache = Map.empty, collection = [example_third] \<rparr>,
        [SessionExpired ''u0'' ''s0''])"
proof -
  let ?F = "{Log (SessionExpired ''u1'' ''s1'')}"
  have c: "expiredSessions 2000 (collection (fst (sweep_store3, []::AuditEntry list)))
     = [example_expired] @ example_session # [example_third]"
    by (simp add: expiredSessions_def sweep_store3_def example_expired_def example_session_def
          example_third_def)
  have q: "FindExpired \<notin> ?F" by simp
  have a: "\<forall>x \<in> set [example_expired]. \<not> rejected ?F x"
    by (simp add: rejected_def example_expired_def)
  have r: "rejected ?F example_session"
    by (simp add: rejected_def example_session_def)
  have d: "DeleteOne (sid example_session) \<notin> ?F" by simp
  have m: "removed (map sid ([example_expired] @ [example_session])) sweep_store3
     = \<lparr> cache = Map.empty, collection = [example_third] \<rparr>"
    by (simp add: removed_def sweep_store3_def example_expired_def example_session_def
          example_third_def fun_eq_iff)
  have l: "map (\<lambda>x. SessionExpired (userId x) (sid x)) [example_expired] = [SessionExpired ''u0'' ''s0'']"
    by (simp add: example_expired_def)
  note t = cleanupSessions_aborts [OF c q a r, THEN conjunct1]
  have k: "cleanupSessions ?F 2000 (sweep_store3, [])
     = (Inl AuditSinkError, \<lparr> cache = Map.empty, collection = [example_third] \<rparr>,
        [SessionExpired ''u0'' ''s0''])"
    unfolding t using d m l by (simp only: if_False fst_conv snd_conv append_Nil)
  have a': "\<not> rejected ?F example_expired"
    using a by simp
  show ?thesis using c a' r k by (simp only: simp_thms)
qed

text \<open>
  Against C8 as stated: the audit entry of the first candidate is rejected, and the second
  candidate is neither removed nor audited.
\<close>

theorem cleanupSessions_counterexample:
  "expiredSessions 2000 (collection sweep_store) = [example_expired, example_session] \<and>
   cleanupSessions {Log (SessionExpired ''u0'' ''s0'')} 2000 (sweep_store, [])
     = (Inl AuditSinkError, sweep_store\<lparr>collection := [example_session]\<rparr>, [])"
  by (simp add: cleanupSessions_def expiredSessions_def sweep_store_def example_expired_def
        example_session_def destroy_def auditLogger_log_def)

section \<open>Concurrent validations of an uncached session\<close>

text \<open>
  Claim C7, as amended. \<^verbatim>\<open>validate\<close> keeps no table of the reads in flight: on a
  cache miss every caller issues its own \<^verbatim>\<open>findOne\<close>. For a session id that is not
  in the cache, \<open>n\<close> concurrent \<^verbatim>\<open>validate\<close> calls that all begin before any of them
  resumes issue \<open>n\<close> repository reads, one each, and no further read whatever the order
  in which they resume; two concurrent calls for the same uncached id trigger two
  repository reads, not one.
\<close>

theorem validate_concurrent_reads:
  "cache st sessionId = None \<Longrightarrow>
   run F now [0..<n] (replicate n (Start sessionId), st, r)
     = (replicate n (Awaiting sessionId), st, r + n) \<and>
   (\<forall>schedule.
      snd (snd (run F now ([0..<n] @ schedule) (replicate n (Start sessionId), st, r))) = r + n)"
proof -
  assume c: "cache st sessionId = None"
  have s: "run F now [0..<n] (replicate n (Start sessionId), st, r)
     = (replicate n (Awaiting sessionId), st, r + n)"
    using run_starts [OF c, of n n F now r] by simp
  have "list_all begun (replicate n (Awaiting sessionId))"
    by (simp add: list_all_iff begun_def)
  then show ?thesis
    using s by (simp add: run_append run_begun)
qed

text \<open>The theorem at two callers for the session \<open>s1\<close>, stored and not cached.\<close>

theorem validate_concurrent_reads_witness:
  "cache uncached_store ''s1'' = None \<and>
   run {} 500 [0..<2] (replicate 2 (Start ''s1''), uncached_store, 0)
     = (replicate 2 (Awaiting ''s1''), uncached_store, 0 + 2) \<and>
   snd (snd (run {} 500 ([0..<2] @ [1, 0]) (replicate 2 (Start ''s1''), uncached_store, 0)))
     = 0 + 2"
proof -
  have c: "cache uncached_store ''s1'' = None"
    by (simp add: uncached_store_def)
  from validate_concurrent_reads [OF c, of "{}" 500 2 0] c
  show ?thesis by blast
qed

text \<open>
  Against C7 as stated: two callers for the uncached session \<open>s1\<close> begin one after the
  other and then resume; both return the session, and two reads were issued.
\<close>

theorem validate_single_flight_counterexample:
  "cache uncached_store ''s1'' = None \<and>
   run {} 500 [0, Suc 0, 0, Suc 0] ([Start ''s1'', Start ''s1''], uncached_store, 0)
     = ([Done (Inr (Some example_session)), Done (Inr (Some example_session))],
        uncached_store\<lparr>cache := [''s1'' \<mapsto> example_session]\<rparr>, 2)"
  by (simp add: validate_step_def after_lookup_def expired_def uncached_store_def
        findOne_def example_session_def)

section \<open>Idempotence of destroy\<close>

text \<open>
  Claim C9. Two calls of \<^verbatim>\<open>destroy\<close> in a row, neither rejected by the repository,
  give the result and the store of one call; and \<^verbatim>\<open>destroy\<close> of an id that is in
  neither the cache nor the repository leaves the store as it was and does not fail
  (unless the repository rejects the call).
\<close>

theorem destroy_idempotent:
  "(DeleteOne sessionId \<notin> F1 \<and> DeleteOne sessionId \<notin> F2 \<longrightarrow>
      destroy F2 sessionId (snd (destroy F1 sessionId st)) = destroy F1 sessionId st) \<and>
   (absent sessionId st \<longrightarrow>
      snd (destroy F1 sessionId st) = st \<and>
      (DeleteOne sessionId \<notin> F1 \<longrightarrow> fst (destroy F1 sessionId st) = Inr ()))"
proof (intro conjI impI)
  assume "DeleteOne sessionId \<notin> F1 \<and> DeleteOne sessionId \<notin> F2"
  then show "destroy F2 sessionId (snd (destroy F1 sessionId st)) = destroy F1 sessionId st"
    by (simp add: destroy_def)
next
  assume a: "absent sessionId st"
  then have c: "(cache st)(sessionId := None) = cache st"
    by (simp add: absent_def fun_upd_idem)
  have f: "filter (\<lambda>s. sid s \<noteq> sessionId) (collection st) = collection st"
    using a by (simp add: absent_def filter_absent)
  show "snd (destroy F1 sessionId st) = st"
    by (simp add: destroy_def c f)
next
  assume "DeleteOne sessionId \<notin> F1"
  then show "fst (destroy F1 sessionId st) = Inr ()"
    by (simp add: destroy_def)
qed

text \<open>The theorem at the example store and at the empty store.\<close>

theorem destroy_idempotent_witness:
  "DeleteOne ''s1'' \<notin> ({} :: call set) \<and>
   destroy {} ''s1'' (snd (destroy {} ''s1'' example_store)) = destroy {} ''s1'' example_store \<and>
   absent ''s1'' empty_store \<and>
   destroy {} ''s1'' empty_store = (Inr (), empty_store)"
proof -
  have a: "absent ''s1'' empty_store"
    by (simp add: absent_def empty_store_def findOne_def)
  have d: "DeleteOne ''s1'' \<notin> ({} :: call set)" by simp
  from destroy_idempotent [of "''s1''" "{}" "{}" example_store]
       destroy_idempotent [of "''s1''" "{}" "{}" empty_store] a d
  show ?thesis by (simp add: prod_eq_iff)
qed

end
